theory Spec2Isabelle
  imports Complex_Main
begin

section \<open>The StableSwap simulator of \<^verbatim>\<open>src/stable.py\<close>\<close>

text \<open>
  The simulator stores balances and the invariant as \<^verbatim>\<open>Decimal\<close> values (28 digits) and
  evaluates the curve on Python floats.  Both are idealised here as exact real numbers:
  the conversions \<^verbatim>\<open>Decimal(str(v))\<close> and \<^verbatim>\<open>float(v)\<close> are the identity, and no operation
  rounds, overflows or produces a NaN.  What the development keeps of the source is its
  control flow: which value is computed from which, which attribute is assigned when,
  and where an exception leaves the method.
\<close>

subsection \<open>Exceptions and the pool object\<close>

text \<open>
  The exceptions the methods can leave with: \<^verbatim>\<open>ValueError\<close> is raised by the source
  itself, \<^verbatim>\<open>ZeroDivisionError\<close> by a float division, \<^verbatim>\<open>IndexError\<close> by a list access,
  \<^verbatim>\<open>RuntimeError\<close> by the root finder when it does not converge, and the two
  \<^verbatim>\<open>decimal\<close> signals by a \<^verbatim>\<open>Decimal\<close> division by zero.
\<close>

datatype exn =
    ValueError
  | ZeroDivisionError
  | IndexError
  | RuntimeError
  | DivisionByZero
  | InvalidOperation

text \<open>
  The attributes of a \<^verbatim>\<open>StableSwapSimulator\<close>.  \<^verbatim>\<open>invariant\<close> and \<^verbatim>\<open>spot_price\<close> are
  assigned late in \<^verbatim>\<open>__init__\<close>; until then the record holds 0 in them, and nothing reads
  them before they are assigned.
\<close>

record pool =
  balances :: "real list"
  amp :: real
  n :: nat
  swap_history :: "(string \<times> real \<times> real) list"
  price_history :: "(real \<times> real \<times> real) list"
  invariant :: real
  spot_price :: real

subsection \<open>The root finder\<close>

text \<open>
  \<^verbatim>\<open>scipy.optimize.newton(func, x0, tol=..., maxiter=...)\<close> is a library routine, not a
  file of the repository.  Every method that calls it takes the root finder as its first
  argument \<open>nw\<close>: the objective (which may raise), the initial estimate, the tolerance
  and the iteration cap, giving a root or an exception.
\<close>

type_synonym solver = "(real \<Rightarrow> exn + real) \<Rightarrow> real \<Rightarrow> real \<Rightarrow> nat \<Rightarrow> exn + real"

text \<open>
  Modelled from the spec: \<^verbatim>\<open>scipy.optimize.newton\<close> without a derivative, which is not
  under \<^verbatim>\<open>src/\<close>.  The spec describes it as a derivative-free two-point (secant-style)
  iteration in which each step estimates the slope from the two most recent trial
  values, which stops when the step size is below the tolerance, and which fails when
  the iteration cap is reached without meeting the tolerance.  The record of a run keeps
  the number of iterations and of objective evaluations beside the result, as the
  library's full output does.  The second starting point, the exchange of the two
  starting points and the failure on a flat secant follow the library.
\<close>

record run =
  outcome :: "exn + real"
  iterations :: nat
  funcalls :: nat

fun secant_loop ::
  "(real \<Rightarrow> exn + real) \<Rightarrow> real \<Rightarrow> nat \<Rightarrow> nat \<Rightarrow> nat \<Rightarrow> real \<Rightarrow> real \<Rightarrow> real \<Rightarrow> real \<Rightarrow> run"
where
  "secant_loop func tol 0 itr calls p0 q0 p1 q1 =
     \<lparr>outcome = Inl RuntimeError, iterations = itr, funcalls = calls\<rparr>"
| "secant_loop func tol (Suc k) itr calls p0 q0 p1 q1 =
     (if q1 = q0 then
        (if p1 \<noteq> p0
         then \<lparr>outcome = Inl RuntimeError, iterations = itr + 1, funcalls = calls\<rparr>
         else \<lparr>outcome = Inr ((p1 + p0) / 2), iterations = itr + 1, funcalls = calls\<rparr>)
      else
        let p = (if \<bar>q1\<bar> > \<bar>q0\<bar>
                 then (- q0 / q1 * p1 + p0) / (1 - q0 / q1)
                 else (- q1 / q0 * p0 + p1) / (1 - q1 / q0))
        in if \<bar>p - p1\<bar> \<le> tol
           then \<lparr>outcome = Inr p, iterations = itr + 1, funcalls = calls\<rparr>
           else (case func p of
                   Inl e \<Rightarrow> \<lparr>outcome = Inl e, iterations = itr + 1, funcalls = calls + 1\<rparr>
                 | Inr q \<Rightarrow> secant_loop func tol k (itr + 1) (calls + 1) p1 q1 p q))"

definition newton_full :: "(real \<Rightarrow> exn + real) \<Rightarrow> real \<Rightarrow> real \<Rightarrow> nat \<Rightarrow> run" where
  "newton_full func x0 tol maxiter =
     (if tol \<le> 0 then \<lparr>outcome = Inl ValueError, iterations = 0, funcalls = 0\<rparr>
      else if maxiter < 1 then \<lparr>outcome = Inl ValueError, iterations = 0, funcalls = 0\<rparr>
      else
        let p0 = x0;
            eps = 1 / 10 ^ 4;
            p1 = x0 * (1 + eps);
            p1 = p1 + (if p1 \<ge> 0 then eps else - eps)
        in case func p0 of
             Inl e \<Rightarrow> \<lparr>outcome = Inl e, iterations = 0, funcalls = 1\<rparr>
           | Inr q0 \<Rightarrow>
               (case func p1 of
                  Inl e \<Rightarrow> \<lparr>outcome = Inl e, iterations = 0, funcalls = 2\<rparr>
                | Inr q1 \<Rightarrow>
                    if \<bar>q1\<bar> < \<bar>q0\<bar>
                    then secant_loop func tol maxiter 0 2 p1 q1 p0 q0
                    else secant_loop func tol maxiter 0 2 p0 q0 p1 q1))"

definition newton :: solver where
  "newton func x0 tol maxiter = outcome (newton_full func x0 tol maxiter)"

subsection \<open>The curve\<close>

text \<open>
  \<^verbatim>\<open>_invariant_function(self, d, balances)\<close>: the residual
  \<open>4A(x+y) + D - (4AD + D\<^sup>3/(4xy))\<close>.  The float division raises when \<open>4xy\<close> is zero.
  (Where the root finder hands over \<open>d\<close> as a NumPy float, NumPy divides to an infinity
  instead of raising; the model follows Python's own float division.)
\<close>

definition invariant_function :: "pool \<Rightarrow> real \<Rightarrow> real list \<Rightarrow> exn + real" where
  "invariant_function self d bs =
     (if length bs \<noteq> 2 then Inl ValueError
      else
        let x = bs ! 0; y = bs ! 1;
            A = amp self;
            left_side = 4 * A * (x + y) + d
        in if 4 * x * y = 0 then Inl ZeroDivisionError
           else
             let right_side = 4 * A * d + (d ^ 3) / (4 * x * y)
             in Inr (left_side - right_side))"

text \<open>
  \<^verbatim>\<open>_compute_invariant(self)\<close>: 0 when the balances sum to 0, otherwise the root finder on
  the residual as a function of \<open>D\<close>, started at the sum.
\<close>

definition compute_invariant :: "solver \<Rightarrow> pool \<Rightarrow> pool \<times> (exn + real)" where
  "compute_invariant nw self =
     (let sum_x = sum_list (balances self)
      in if sum_x = 0 then (self, Inr 0)
         else (self, nw (\<lambda>d. invariant_function self d (balances self))
                        sum_x (1 / 10 ^ 10) 100))"

text \<open>
  \<^verbatim>\<open>update_spot_price(self)\<close>: the two quantities the source calls partial derivatives,
  their quotient stored as the spot price and appended to the price history.  Each of
  the three float divisions raises on a zero divisor, before anything is assigned.
\<close>

definition df_dx :: "real \<Rightarrow> real \<Rightarrow> real \<Rightarrow> real \<Rightarrow> real" where
  "df_dx A d x y = 4 * A - (d ^ 3) / (4 * (x ^ 2) * y)"

definition df_dy :: "real \<Rightarrow> real \<Rightarrow> real \<Rightarrow> real \<Rightarrow> real" where
  "df_dy A d x y = 4 * A - (d ^ 3) / (4 * x * (y ^ 2))"

definition update_spot_price :: "pool \<Rightarrow> pool \<times> (exn + unit)" where
  "update_spot_price self =
     (if length (balances self) < 2 then (self, Inl IndexError)
      else
        let x = balances self ! 0; y = balances self ! 1;
            d = invariant self;
            A = amp self
        in if 4 * (x ^ 2) * y = 0 then (self, Inl ZeroDivisionError)
           else if 4 * x * (y ^ 2) = 0 then (self, Inl ZeroDivisionError)
           else if df_dx A d x y = 0 then (self, Inl ZeroDivisionError)
           else
             let price = df_dy A d x y / df_dx A d x y;
                 self = self\<lparr>spot_price := price\<rparr>;
                 self = self\<lparr>price_history := price_history self @ [(x, y, price)]\<rparr>
             in (self, Inr ()))"

text \<open>
  \<^verbatim>\<open>__init__(self, initial_balances, amplification_parameter)\<close>: a result \<open>Inl e\<close> is the
  constructor raising, so that no object comes into being.
\<close>

definition init :: "solver \<Rightarrow> real list \<Rightarrow> real \<Rightarrow> exn + pool" where
  "init nw initial_balances amplification_parameter =
     (let self = \<lparr>balances = initial_balances,
                  amp = amplification_parameter,
                  n = length initial_balances,
                  swap_history = [],
                  price_history = [],
                  invariant = 0,
                  spot_price = 0\<rparr>
      in if n self \<noteq> 2 then Inl ValueError
         else
           (case compute_invariant nw self of
              (self, Inl e) \<Rightarrow> Inl e
            | (self, Inr D) \<Rightarrow>
                let self = self\<lparr>invariant := D\<rparr>
                in (case update_spot_price self of
                      (self, Inl e) \<Rightarrow> Inl e
                    | (self, Inr u) \<Rightarrow> Inr self)))"

subsection \<open>The balance solver and the quotes\<close>

text \<open>
  The objective \<^verbatim>\<open>invariant_error(balance)\<close> inside \<^verbatim>\<open>solve_for_balance\<close>: the residual at
  the hypothetical balances, and \<^verbatim>\<open>1e10\<close> when evaluating it raises.
\<close>

definition invariant_error :: "pool \<Rightarrow> real \<Rightarrow> nat \<Rightarrow> real \<Rightarrow> real \<Rightarrow> real" where
  "invariant_error self known_balance balance_index target_invariant balance =
     (let bs = [0, 0];
          bs = bs[balance_index := known_balance];
          bs = bs[1 - balance_index := balance]
      in case invariant_function self target_invariant bs of
           Inr invariant_val \<Rightarrow> invariant_val
         | Inl e \<Rightarrow> 10 ^ 10)"

text \<open>
  \<^verbatim>\<open>solve_for_balance(self, known_balance, balance_index, target_invariant)\<close>.  The callers
  pass the index 0 or 1; any other index ends in an \<^verbatim>\<open>IndexError\<close>, as does reading the
  estimate \<^verbatim>\<open>self.balances[1 - balance_index]\<close> from a list that is too short.
\<close>

definition solve_for_balance ::
  "solver \<Rightarrow> pool \<Rightarrow> real \<Rightarrow> nat \<Rightarrow> real \<Rightarrow> pool \<times> (exn + real)"
where
  "solve_for_balance nw self known_balance balance_index target_invariant =
     (if balance_index > 1 \<or> length (balances self) \<le> 1 - balance_index
      then (self, Inl IndexError)
      else
        let other_balance = balances self ! (1 - balance_index)
        in (self, nw (\<lambda>balance. Inr (invariant_error self known_balance balance_index
                                        target_invariant balance))
                     other_balance (1 / 10 ^ 10) 100))"

definition get_dy_given_dx :: "solver \<Rightarrow> pool \<Rightarrow> real \<Rightarrow> pool \<times> (exn + real)" where
  "get_dy_given_dx nw self dx =
     (if length (balances self) < 2 then (self, Inl IndexError)
      else
        let x = balances self ! 0; y = balances self ! 1;
            x_new = x + dx
        in (case solve_for_balance nw self x_new 0 (invariant self) of
              (self, Inl e) \<Rightarrow> (self, Inl e)
            | (self, Inr y_new) \<Rightarrow> (self, Inr (y - y_new))))"

definition get_dx_given_dy :: "solver \<Rightarrow> pool \<Rightarrow> real \<Rightarrow> pool \<times> (exn + real)" where
  "get_dx_given_dy nw self dy =
     (if length (balances self) < 2 then (self, Inl IndexError)
      else
        let x = balances self ! 0; y = balances self ! 1;
            y_new = y + dy
        in (case solve_for_balance nw self y_new 1 (invariant self) of
              (self, Inl e) \<Rightarrow> (self, Inl e)
            | (self, Inr x_new) \<Rightarrow> (self, Inr (x - x_new))))"

subsection \<open>The swaps\<close>

text \<open>
  \<^verbatim>\<open>Decimal.__truediv__\<close> as the closing \<^verbatim>\<open>print("Price ::", dy_decimal/dx_decimal)\<close> of
  both swaps uses it: a zero divisor raises.
\<close>

definition decimal_div :: "real \<Rightarrow> real \<Rightarrow> exn + real" where
  "decimal_div a b =
     (if b = 0 then (if a = 0 then Inl InvalidOperation else Inl DivisionByZero)
      else Inr (a / b))"

text \<open>
  \<^verbatim>\<open>swap_x_for_y(self, dx)\<close>.  The result pairs the object as the call leaves it with the
  returned amount or the exception: an exception raised after the balances were
  assigned leaves them assigned.  \<open>invariant_diff\<close> is computed and printed only.
\<close>

definition swap_x_for_y :: "solver \<Rightarrow> pool \<Rightarrow> real \<Rightarrow> pool \<times> (exn + real)" where
  "swap_x_for_y nw self dx =
     (case get_dy_given_dx nw self dx of
        (self, Inl e) \<Rightarrow> (self, Inl e)
      | (self, Inr dy) \<Rightarrow>
          let self = self\<lparr>balances := (balances self)[0 := balances self ! 0 + dx]\<rparr>;
              self = self\<lparr>balances := (balances self)[1 := balances self ! 1 - dy]\<rparr>
          in (case compute_invariant nw self of
                (self, Inl e) \<Rightarrow> (self, Inl e)
              | (self, Inr new_invariant) \<Rightarrow>
                  let invariant_diff = \<bar>new_invariant - invariant self\<bar>;
                      self = self\<lparr>invariant := new_invariant\<rparr>
                  in (case update_spot_price self of
                        (self, Inl e) \<Rightarrow> (self, Inl e)
                      | (self, Inr u) \<Rightarrow>
                          let self = self\<lparr>swap_history :=
                                            swap_history self @ [(''X->Y'', dx, dy)]\<rparr>
                          in (case decimal_div dy dx of
                                Inl e \<Rightarrow> (self, Inl e)
                              | Inr price \<Rightarrow> (self, Inr dy)))))"

text \<open>\<^verbatim>\<open>swap_y_for_x(self, dy)\<close>, the mirror image; its closing print divides by the output.\<close>

definition swap_y_for_x :: "solver \<Rightarrow> pool \<Rightarrow> real \<Rightarrow> pool \<times> (exn + real)" where
  "swap_y_for_x nw self dy =
     (case get_dx_given_dy nw self dy of
        (self, Inl e) \<Rightarrow> (self, Inl e)
      | (self, Inr dx) \<Rightarrow>
          let self = self\<lparr>balances := (balances self)[1 := balances self ! 1 + dy]\<rparr>;
              self = self\<lparr>balances := (balances self)[0 := balances self ! 0 - dx]\<rparr>
          in (case compute_invariant nw self of
                (self, Inl e) \<Rightarrow> (self, Inl e)
              | (self, Inr new_invariant) \<Rightarrow>
                  let invariant_diff = \<bar>new_invariant - invariant self\<bar>;
                      self = self\<lparr>invariant := new_invariant\<rparr>
                  in (case update_spot_price self of
                        (self, Inl e) \<Rightarrow> (self, Inl e)
                      | (self, Inr u) \<Rightarrow>
                          let self = self\<lparr>swap_history :=
                                            swap_history self @ [(''Y->X'', dy, dx)]\<rparr>
                          in (case decimal_div dy dx of
                                Inl e \<Rightarrow> (self, Inl e)
                              | Inr price \<Rightarrow> (self, Inr dx)))))"

subsection \<open>Pools used as concrete inputs\<close>

text \<open>
  \<open>pool0\<close> is the object \<^verbatim>\<open>StableSwapSimulator([1000, 1000], 100)\<close> leaves behind,
  \<open>pool_neg\<close> the one of \<^verbatim>\<open>StableSwapSimulator([1, -1], 100)\<close> and \<open>pool_tiny\<close> the one of
  \<^verbatim>\<open>StableSwapSimulator([1e-11, 1e-11], 100)\<close>; the lemmas \<open>init_pool0\<close>, \<open>init_pool_neg\<close>
  and \<open>init_pool_tiny\<close> below run the constructor on these inputs.  \<open>pool_skew\<close> is the
  object of \<^verbatim>\<open>StableSwapSimulator([2, 0.25], 2)\<close> as the constructor hands it to
  \<^verbatim>\<open>update_spot_price\<close>, holding the invariant 2 of these balances: the residual at
  \<open>D = 2\<close> is 0, and the spot price and the price history are not assigned yet.
\<close>

definition pool0 :: pool where
  "pool0 = \<lparr>balances = [1000, 1000], amp = 100, n = 2, swap_history = [],
            price_history = [(1000, 1000, 1)], invariant = 2000, spot_price = 1\<rparr>"

definition pool_neg :: pool where
  "pool_neg = \<lparr>balances = [1, - 1], amp = 100, n = 2, swap_history = [],
               price_history = [(1, - 1, 1)], invariant = 0, spot_price = 1\<rparr>"

definition pool_tiny :: pool where
  "pool_tiny = \<lparr>balances = [1 / 10 ^ 11, 1 / 10 ^ 11], amp = 100, n = 2, swap_history = [],
                price_history = [(1 / 10 ^ 11, 1 / 10 ^ 11, 1)],
                invariant = 2 / 10 ^ 11, spot_price = 1\<rparr>"

definition pool_skew :: pool where
  "pool_skew = \<lparr>balances = [2, 1 / 4], amp = 2, n = 2, swap_history = [],
                price_history = [], invariant = 2, spot_price = 0\<rparr>"

section \<open>Properties\<close>

subsection \<open>Auxiliary facts\<close>

text \<open>One pass of the secant loop, for a counter that is not written as a successor.\<close>

lemma secant_loop_pos:
  "0 < k \<Longrightarrow> secant_loop func tol k itr calls p0 q0 p1 q1 =
     (if q1 = q0 then
        (if p1 \<noteq> p0
         then \<lparr>outcome = Inl RuntimeError, iterations = itr + 1, funcalls = calls\<rparr>
         else \<lparr>outcome = Inr ((p1 + p0) / 2), iterations = itr + 1, funcalls = calls\<rparr>)
      else
        let p = (if \<bar>q1\<bar> > \<bar>q0\<bar>
                 then (- q0 / q1 * p1 + p0) / (1 - q0 / q1)
                 else (- q1 / q0 * p0 + p1) / (1 - q1 / q0))
        in if \<bar>p - p1\<bar> \<le> tol
           then \<lparr>outcome = Inr p, iterations = itr + 1, funcalls = calls\<rparr>
           else (case func p of
                   Inl e \<Rightarrow> \<lparr>outcome = Inl e, iterations = itr + 1, funcalls = calls + 1\<rparr>
                 | Inr q \<Rightarrow> secant_loop func tol (k - 1) (itr + 1) (calls + 1) p1 q1 p q))"
  by (cases k) (simp_all only: secant_loop.simps diff_Suc_1 less_irrefl)

text \<open>The residual on a two-element list.\<close>

lemma invariant_function_pair:
  "invariant_function self d [x, y] =
     (if x = 0 \<or> y = 0 then Inl ZeroDivisionError
      else Inr (4 * amp self * (x + y) + d - (4 * amp self * d + d ^ 3 / (4 * x * y))))"
  by (simp add: invariant_function_def Let_def)

lemma invariant_function_swap:
  "invariant_function self d [x, y] = invariant_function self d [y, x]"
  by (simp add: invariant_function_pair add.commute mult.commute mult.left_commute disj_commute)

text \<open>The constructor on the three inputs.\<close>

lemma init_pool0: "init newton [1000, 1000] 100 = Inr pool0"
  by (simp add: init_def compute_invariant_def newton_def newton_full_def secant_loop_pos
      invariant_function_def update_spot_price_def df_dx_def df_dy_def pool0_def Let_def
      power_divide)

lemma init_pool_neg: "init nw [1, - 1] 100 = Inr pool_neg"
  by (simp add: init_def compute_invariant_def update_spot_price_def df_dx_def df_dy_def
      pool_neg_def Let_def)

lemma init_pool_tiny: "init newton [1 / 10 ^ 11, 1 / 10 ^ 11] 100 = Inr pool_tiny"
  by (simp add: init_def compute_invariant_def newton_def newton_full_def secant_loop_pos
      invariant_function_def update_spot_price_def df_dx_def df_dy_def pool_tiny_def Let_def
      power_divide)

text \<open>The derivative of the residual in its first balance, and in its second.\<close>

lemma curve_deriv:
  fixes x y A d :: real
  assumes "x \<noteq> 0" "y \<noteq> 0"
  shows "((\<lambda>u. 4 * A * (u + y) + d - (4 * A * d + d ^ 3 / (4 * u * y))) has_real_derivative
            (4 * A + d ^ 3 / (4 * x ^ 2 * y))) (at x)"
proof -
  have "((\<lambda>u. 4 * A * (u + y) + d - (4 * A * d + d ^ 3 / (4 * u * y))) has_real_derivative
          (4 * A * (1 + 0) + 0 -
            (0 + - (d ^ 3) * (4 * 1 * y) / ((4 * x * y) * (4 * x * y))))) (at x)"
    using assms by (auto intro!: derivative_eq_intros)
  moreover have "4 * A * (1 + 0) + 0 -
      (0 + - (d ^ 3) * (4 * 1 * y) / ((4 * x * y) * (4 * x * y)))
      = 4 * A + d ^ 3 / (4 * x ^ 2 * y)"
    using assms by (simp add: power2_eq_square)
  ultimately show ?thesis by simp
qed

lemma residual_deriv_x:
  assumes "x \<noteq> 0" "y \<noteq> 0"
  shows "((\<lambda>u. projr (invariant_function self d [u, y])) has_real_derivative
            (4 * amp self + d ^ 3 / (4 * x ^ 2 * y))) (at x)"
proof (rule has_field_derivative_transform_within_open [OF curve_deriv [OF assms]])
  show "open (- {0::real})" by (simp add: open_Compl)
  show "x \<in> - {0}" using assms by simp
  show "\<And>u. u \<in> - {0} \<Longrightarrow>
      4 * amp self * (u + y) + d - (4 * amp self * d + d ^ 3 / (4 * u * y)) =
      projr (invariant_function self d [u, y])"
    using assms by (simp add: invariant_function_pair)
qed

lemma residual_deriv_y:
  assumes "x \<noteq> 0" "y \<noteq> 0"
  shows "((\<lambda>v. projr (invariant_function self d [x, v])) has_real_derivative
            (4 * amp self + d ^ 3 / (4 * x * y ^ 2))) (at y)"
proof -
  have "(\<lambda>v. projr (invariant_function self d [x, v])) =
        (\<lambda>v. projr (invariant_function self d [v, x]))"
    by (rule ext) (rule arg_cong [where f = projr], rule invariant_function_swap)
  then show ?thesis
    using residual_deriv_x [OF assms(2) assms(1), of self d] by (simp add: ac_simps)
qed

subsection \<open>Construction\<close>

text \<open>
  Claim C5, as amended.  The constructor validates the number of balances only, never
  their sign.  A pool it returns holds the balances it was given, two of them, and both
  are different from zero, because the spot price divides by \<open>4x\<^sup>2y\<close> and by \<open>4xy\<^sup>2\<close>; so
  construction with a zero balance in either position fails, with whatever root finder.
  A negative balance is accepted: see \<open>init_accepts_negative_balance\<close>.
\<close>

theorem init_balances_nonzero:
  assumes "init nw bs A = Inr p"
  shows "balances p = bs \<and> length bs = 2 \<and> bs ! 0 \<noteq> 0 \<and> bs ! 1 \<noteq> 0"
  using assms
  by (auto simp add: init_def update_spot_price_def compute_invariant_def Let_def
      split: if_splits sum.splits prod.splits)

theorem init_balances_nonzero_witness:
  "init newton [1000, 1000] 100 = Inr pool0 \<and> balances pool0 = [1000, 1000] \<and>
   length [1000, 1000 :: real] = 2 \<and> [1000, 1000 :: real] ! 0 \<noteq> 0 \<and>
   [1000, 1000 :: real] ! 1 \<noteq> 0"
  using init_balances_nonzero [OF init_pool0] init_pool0 by simp

text \<open>
  Claim C5 as the spec states it fails: \<^verbatim>\<open>StableSwapSimulator([1, -1], 100)\<close> returns a
  pool whose second balance is \<open>-1\<close>.  The balances sum to 0, so the invariant is 0
  without a call of the root finder, and the spot price is \<open>400 / 400\<close>.
\<close>

theorem init_accepts_negative_balance:
  "init newton [1, - 1] 100 = Inr pool_neg \<and> balances pool_neg ! 1 < 0"
  by (simp add: init_pool_neg) (simp add: pool_neg_def)

subsection \<open>The curve and the quantities of the spot price\<close>

text \<open>
  The residual and its partial derivatives.  For positive balances the residual
  function returns exactly \<open>4A(x+y) + D - 4AD - D\<^sup>3/(4xy)\<close>, and its partial derivatives
  in \<open>x\<close> and in \<open>y\<close> are \<open>4A + D\<^sup>3/(4x\<^sup>2y)\<close> and \<open>4A + D\<^sup>3/(4xy\<^sup>2)\<close>.
\<close>

theorem residual_and_its_partials:
  assumes "0 < x" and "0 < y"
  shows "invariant_function self d [x, y] =
           Inr (4 * amp self * (x + y) + d - 4 * amp self * d - d ^ 3 / (4 * x * y)) \<and>
         ((\<lambda>u. projr (invariant_function self d [u, y])) has_real_derivative
            (4 * amp self + d ^ 3 / (4 * x ^ 2 * y))) (at x) \<and>
         ((\<lambda>v. projr (invariant_function self d [x, v])) has_real_derivative
            (4 * amp self + d ^ 3 / (4 * x * y ^ 2))) (at y)"
proof -
  have nz: "x \<noteq> 0" "y \<noteq> 0"
    using assms by simp_all
  have "invariant_function self d [x, y] =
          Inr (4 * amp self * (x + y) + d - 4 * amp self * d - d ^ 3 / (4 * x * y))"
    using nz by (simp add: invariant_function_pair algebra_simps)
  then show ?thesis
    using residual_deriv_x [OF nz] residual_deriv_y [OF nz] by blast
qed

theorem residual_and_its_partials_witness:
  "(0::real) < 1000 \<and>
   invariant_function pool0 2000 [1000, 1000] = Inr 0 \<and>
   ((\<lambda>u. projr (invariant_function pool0 2000 [u, 1000])) has_real_derivative 402) (at 1000) \<and>
   ((\<lambda>v. projr (invariant_function pool0 2000 [1000, v])) has_real_derivative 402) (at 1000)"
proof -
  have pos: "(0::real) < 1000"
    by simp
  show ?thesis
    using residual_and_its_partials [OF pos pos, of pool0 2000]
    by (simp add: pool0_def)
qed

text \<open>
  What \<^verbatim>\<open>update_spot_price\<close> stores.  A call that returns has stored, and appended to
  the price history, the quotient of \<open>4A - D\<^sup>3/(4xy\<^sup>2)\<close> by \<open>4A - D\<^sup>3/(4x\<^sup>2y)\<close>, with \<open>D\<close>
  the invariant the object holds, and has changed nothing else.
\<close>

theorem update_spot_price_stores:
  assumes "balances self = [x, y]" and "update_spot_price self = (self', Inr u)"
  shows "spot_price self' =
           (4 * amp self - invariant self ^ 3 / (4 * x * y ^ 2)) /
           (4 * amp self - invariant self ^ 3 / (4 * x ^ 2 * y)) \<and>
         self' = self\<lparr>spot_price := spot_price self',
                       price_history := price_history self @ [(x, y, spot_price self')]\<rparr>"
  using assms
  by (auto simp add: update_spot_price_def df_dx_def df_dy_def Let_def split: if_splits)

theorem update_spot_price_stores_witness:
  "balances pool_skew = [2, 1 / 4] \<and>
   update_spot_price pool_skew =
     (\<lparr>balances = [2, 1 / 4], amp = 2, n = 2, swap_history = [],
        price_history = [(2, 1 / 4, - (4 / 3))], invariant = 2, spot_price = - (4 / 3)\<rparr>,
      Inr ()) \<and>
   (- (4 / 3) :: real) = (4 * 2 - 2 ^ 3 / (4 * 2 * (1 / 4) ^ 2)) / (4 * 2 - 2 ^ 3 / (4 * 2 ^ 2 * (1 / 4)))"
proof -
  have b: "balances pool_skew = [2, 1 / 4]"
    by (simp add: pool_skew_def)
  have u: "update_spot_price pool_skew =
     (\<lparr>balances = [2, 1 / 4], amp = 2, n = 2, swap_history = [],
        price_history = [(2, 1 / 4, - (4 / 3))], invariant = 2, spot_price = - (4 / 3)\<rparr>,
      Inr ())"
    by (simp add: update_spot_price_def df_dx_def df_dy_def pool_skew_def Let_def power_divide)
  show ?thesis
    using update_spot_price_stores [OF b u] b u by (simp add: pool_skew_def)
qed

text \<open>
  Claim C6.  The claim takes the two quantities of the spot price to be the partial
  derivatives of the residual, as the docstring of \<^verbatim>\<open>update_spot_price\<close>
  (\<^verbatim>\<open>using total differential\<close>) and its comment (\<^verbatim>\<open>Calculate partial derivatives\<close>) do.  The code
  evaluates \<open>4A - D\<^sup>3/(4x\<^sup>2y)\<close> and \<open>4A - D\<^sup>3/(4xy\<^sup>2)\<close>, which are the partial derivatives
  with the sign of the second term reversed.  On \<open>pool_skew\<close>, which lies on the curve,
  the partial derivatives of the residual are 10 and 24 and their quotient is \<open>12/5\<close>;
  \<^verbatim>\<open>update_spot_price\<close> stores the negative price \<open>-4/3\<close>.
\<close>

theorem spot_price_sign_slip:
  "invariant_function pool_skew (invariant pool_skew) (balances pool_skew) = Inr 0 \<and>
   ((\<lambda>u. projr (invariant_function pool_skew 2 [u, 1 / 4])) has_real_derivative 10) (at 2) \<and>
   ((\<lambda>v. projr (invariant_function pool_skew 2 [2, v])) has_real_derivative 24) (at (1 / 4)) \<and>
   update_spot_price pool_skew =
     (\<lparr>balances = [2, 1 / 4], amp = 2, n = 2, swap_history = [],
        price_history = [(2, 1 / 4, - (4 / 3))], invariant = 2, spot_price = - (4 / 3)\<rparr>,
      Inr ()) \<and>
   (- (4 / 3) :: real) \<noteq> 24 / 10"
proof -
  have on_curve: "invariant_function pool_skew (invariant pool_skew) (balances pool_skew) = Inr 0"
    by (simp add: invariant_function_pair pool_skew_def)
  have dx: "((\<lambda>u. projr (invariant_function pool_skew 2 [u, 1 / 4])) has_real_derivative
              (4 * amp pool_skew + 2 ^ 3 / (4 * 2 ^ 2 * (1 / 4)))) (at 2)"
    by (rule residual_deriv_x) simp_all
  have dy: "((\<lambda>v. projr (invariant_function pool_skew 2 [2, v])) has_real_derivative
              (4 * amp pool_skew + 2 ^ 3 / (4 * 2 * (1 / 4) ^ 2))) (at (1 / 4))"
    by (rule residual_deriv_y) simp_all
  have vx: "4 * amp pool_skew + 2 ^ 3 / (4 * 2 ^ 2 * (1 / 4)) = 10"
    by (simp add: pool_skew_def)
  have vy: "4 * amp pool_skew + 2 ^ 3 / (4 * 2 * (1 / 4) ^ 2) = 24"
    by (simp add: pool_skew_def power_divide)
  have u: "update_spot_price pool_skew =
     (\<lparr>balances = [2, 1 / 4], amp = 2, n = 2, swap_history = [],
        price_history = [(2, 1 / 4, - (4 / 3))], invariant = 2, spot_price = - (4 / 3)\<rparr>,
      Inr ())"
    by (simp add: update_spot_price_def df_dx_def df_dy_def pool_skew_def Let_def power_divide)
  have ne: "(- (4 / 3) :: real) \<noteq> 24 / 10"
    by simp
  show ?thesis
    using on_curve dx dy u ne unfolding vx vy by blast
qed

text \<open>
  Claim C10.  The residual is symmetric in the two balances: exchanging them gives the
  same result, a value where both are different from zero and the same exception
  otherwise.
\<close>

theorem residual_symmetric:
  "invariant_function self d [x, y] = invariant_function self d [y, x]"
  by (simp add: invariant_function_pair add.commute mult.commute mult.left_commute disj_commute)

text \<open>
  Claim C8.  For a pool with equal positive balances, whatever its invariant and its
  amplification, a call of \<^verbatim>\<open>update_spot_price\<close> that returns has stored a spot price
  within \<open>10\<^sup>-\<^sup>6\<close> of 1.  (In exact arithmetic the price is 1: both quantities are the same
  number, and the call returns only when it is not zero.)
\<close>

theorem spot_price_equal_balances:
  assumes "balances self = [x, y]" and "x = y" and "0 < x"
    and "update_spot_price self = (self', Inr u)"
  shows "\<bar>spot_price self' - 1\<bar> \<le> 1 / 10 ^ 6"
proof -
  have "spot_price self' = 1"
    using assms
    by (auto simp add: update_spot_price_def Let_def df_dx_def df_dy_def power2_eq_square
        mult_ac split: if_splits)
  then show ?thesis
    by simp
qed

theorem spot_price_equal_balances_witness:
  "balances pool0 = [1000, 1000] \<and> (0::real) < 1000 \<and>
   update_spot_price pool0 =
     (pool0\<lparr>price_history := [(1000, 1000, 1), (1000, 1000, 1)]\<rparr>, Inr ()) \<and>
   \<bar>spot_price (pool0\<lparr>price_history := [(1000, 1000, 1), (1000, 1000, 1)]\<rparr>) - 1\<bar>
     \<le> 1 / 10 ^ 6"
proof -
  have b: "balances pool0 = [1000, 1000]"
    by (simp add: pool0_def)
  have u: "update_spot_price pool0 =
      (pool0\<lparr>price_history := [(1000, 1000, 1), (1000, 1000, 1)]\<rparr>, Inr ())"
    by (simp add: update_spot_price_def df_dx_def df_dy_def pool0_def Let_def)
  show ?thesis
    using spot_price_equal_balances [OF b refl _ u] b u by simp
qed

subsection \<open>Quotes\<close>

text \<open>
  Claim C9.  A quote leaves the object as it found it: after \<^verbatim>\<open>get_dy_given_dx\<close>,
  \<^verbatim>\<open>get_dx_given_dy\<close> and \<^verbatim>\<open>solve_for_balance\<close> every attribute (balances, invariant, spot
  price, both histories) has the value it had before, whether the call returns or
  raises, with whatever root finder.  The balance of the other side is read, as the
  initial estimate, and not written.
\<close>

theorem quotes_do_not_mutate:
  "fst (get_dy_given_dx nw self dx) = self \<and>
   fst (get_dx_given_dy nw self dy) = self \<and>
   fst (solve_for_balance nw self known_balance balance_index target_invariant) = self"
  by (simp add: get_dy_given_dx_def get_dx_given_dy_def solve_for_balance_def Let_def
      split: sum.splits prod.splits)

subsection \<open>The cost of computing the invariant\<close>

text \<open>
  A run of the secant loop started with \<open>k\<close> iterations left makes at most \<open>k\<close> more
  iterations and at most \<open>k\<close> more evaluations; with an objective that never raises, a
  run that makes all \<open>k\<close> evaluations ends in \<^verbatim>\<open>RuntimeError\<close>.
\<close>

lemma secant_loop_iterations:
  "iterations (secant_loop func tol k itr calls p0 q0 p1 q1) \<le> itr + k"
proof (induction k arbitrary: itr calls p0 q0 p1 q1)
  case 0
  show ?case by simp
next
  case (Suc k)
  have "iterations (secant_loop func tol k (itr + 1) (calls + 1) a b c d) \<le> itr + Suc k" for a b c d
    using Suc.IH [of "itr + 1" "calls + 1" a b c d] by simp
  then show ?case
    by (simp add: Let_def split: sum.splits)
qed

lemma secant_loop_funcalls:
  "funcalls (secant_loop func tol k itr calls p0 q0 p1 q1) \<le> calls + k"
proof (induction k arbitrary: itr calls p0 q0 p1 q1)
  case 0
  show ?case by simp
next
  case (Suc k)
  have "funcalls (secant_loop func tol k (itr + 1) (calls + 1) a b c d) \<le> calls + Suc k" for a b c d
    using Suc.IH [of "itr + 1" "calls + 1" a b c d] by simp
  then show ?case
    by (simp add: Let_def split: sum.splits)
qed

lemma secant_loop_exhausted:
  assumes "\<And>p. \<exists>q. func p = Inr q"
    and "funcalls (secant_loop func tol k itr calls p0 q0 p1 q1) = calls + k"
  shows "outcome (secant_loop func tol k itr calls p0 q0 p1 q1) = Inl RuntimeError"
  using assms(2)
proof (induction k arbitrary: itr calls p0 q0 p1 q1)
  case 0
  show ?case by simp
next
  case (Suc k)
  let ?p = "if \<bar>q1\<bar> > \<bar>q0\<bar> then (- q0 / q1 * p1 + p0) / (1 - q0 / q1)
            else (- q1 / q0 * p0 + p1) / (1 - q1 / q0)"
  obtain q where q: "func ?p = Inr q"
    using assms(1) by blast
  show ?case
  proof (cases "q1 = q0 \<or> \<bar>?p - p1\<bar> \<le> tol")
    case True
    with Suc.prems show ?thesis
      by (auto simp add: Let_def split: if_splits)
  next
    case False
    with Suc.prems q
    have "funcalls (secant_loop func tol k (itr + 1) (calls + 1) p1 q1 ?p q) = (calls + 1) + k"
      by (simp add: Let_def)
    from Suc.IH [OF this] False q show ?thesis
      by (simp add: Let_def)
  qed
qed

lemma newton_full_bounds:
  "iterations (newton_full func x0 tol maxiter) \<le> maxiter \<and>
   funcalls (newton_full func x0 tol maxiter) \<le> maxiter + 2"
proof -
  have "iterations (secant_loop func tol maxiter 0 2 a b c d) \<le> maxiter" for a b c d
    using secant_loop_iterations [of func tol maxiter 0 2 a b c d] by simp
  moreover have "funcalls (secant_loop func tol maxiter 0 2 a b c d) \<le> maxiter + 2" for a b c d
    using secant_loop_funcalls [of func tol maxiter 0 2 a b c d] by simp
  ultimately show ?thesis
    by (simp add: newton_full_def Let_def split: sum.splits)
qed

lemma newton_full_exhausted:
  assumes "\<And>p. \<exists>q. func p = Inr q"
    and "funcalls (newton_full func x0 tol maxiter) = maxiter + 2"
  shows "outcome (newton_full func x0 tol maxiter) = Inl RuntimeError"
proof -
  have "funcalls (secant_loop func tol maxiter 0 2 a b c d) = 2 + maxiter \<Longrightarrow>
        outcome (secant_loop func tol maxiter 0 2 a b c d) = Inl RuntimeError" for a b c d
    by (rule secant_loop_exhausted [OF assms(1)])
  with assms(2) show ?thesis
    by (auto simp add: newton_full_def Let_def split: sum.splits if_splits)
qed

lemma objective_uniform:
  "(\<forall>d. \<exists>q. invariant_function self d bs = Inr q) \<or>
   (\<exists>e. \<forall>d. invariant_function self d bs = Inl e)"
  by (auto simp add: invariant_function_def Let_def)

text \<open>
  Claim C7.  \<^verbatim>\<open>_compute_invariant\<close> returns 0 at once, with whatever root finder, when the
  balances sum to 0.  Otherwise its result is the outcome of one run of the root finder
  on the residual, started at the sum of the balances with tolerance \<open>10\<^sup>-\<^sup>1\<^sup>0\<close> and cap
  100; the run makes at most 100 iterations and at most 102 evaluations of the
  residual, and a run that makes all 102 evaluations, the cap being reached without
  meeting the tolerance, ends in \<^verbatim>\<open>RuntimeError\<close>.  The functions are total, so every call
  returns a value or an exception.
\<close>

theorem compute_invariant_bounded:
  "(sum_list (balances self) = 0 \<longrightarrow> compute_invariant nw self = (self, Inr 0)) \<and>
   (sum_list (balances self) \<noteq> 0 \<longrightarrow>
      (let r = newton_full (\<lambda>d. invariant_function self d (balances self))
                 (sum_list (balances self)) (1 / 10 ^ 10) 100
       in compute_invariant newton self = (self, outcome r) \<and>
          iterations r \<le> 100 \<and> funcalls r \<le> 102 \<and>
          (funcalls r < 102 \<or> outcome r = Inl RuntimeError)))"
proof -
  let ?f = "\<lambda>d. invariant_function self d (balances self)"
  let ?r = "newton_full ?f (sum_list (balances self)) (1 / 10 ^ 10) 100"
  have bounds: "iterations ?r \<le> 100 \<and> funcalls ?r \<le> 102"
    using newton_full_bounds [of ?f "sum_list (balances self)" "1 / 10 ^ 10" 100] by simp
  have cap: "funcalls ?r < 102 \<or> outcome ?r = Inl RuntimeError"
  proof (cases "\<forall>d. \<exists>q. ?f d = Inr q")
    case True
    show ?thesis
    proof (cases "funcalls ?r = 102")
      case True
      have "outcome ?r = Inl RuntimeError"
        by (rule newton_full_exhausted) (use \<open>\<forall>d. \<exists>q. ?f d = Inr q\<close> True in simp_all)
      then show ?thesis ..
    next
      case False
      with bounds show ?thesis by simp
    qed
  next
    case False
    then obtain e where "\<forall>d. ?f d = Inl e"
      using objective_uniform [of self "balances self"] by blast
    then have "funcalls ?r = 1"
      by (simp add: newton_full_def Let_def)
    then show ?thesis by simp
  qed
  show ?thesis
    using bounds cap by (simp add: compute_invariant_def newton_def Let_def)
qed

theorem compute_invariant_bounded_witness:
  "sum_list (balances pool_neg) = 0 \<and>
   compute_invariant newton pool_neg = (pool_neg, Inr 0) \<and>
   sum_list (balances pool0) \<noteq> 0 \<and>
   compute_invariant newton pool0 = (pool0, Inr 2000) \<and>
   newton_full (\<lambda>d. invariant_function pool0 d (balances pool0))
       (sum_list (balances pool0)) (1 / 10 ^ 10) 100 =
     \<lparr>outcome = Inr 2000, iterations = 2, funcalls = 3\<rparr>"
proof -
  have run: "newton_full (\<lambda>d. invariant_function pool0 d (balances pool0))
       (sum_list (balances pool0)) (1 / 10 ^ 10) 100 =
     \<lparr>outcome = Inr 2000, iterations = 2, funcalls = 3\<rparr>"
    by (simp add: newton_full_def secant_loop_pos invariant_function_def pool0_def Let_def
        power_divide)
  have s0: "sum_list (balances pool_neg) = 0"
    by (simp add: pool_neg_def)
  have s1: "sum_list (balances pool0) \<noteq> 0"
    by (simp add: pool0_def)
  show ?thesis
    using compute_invariant_bounded [of pool_neg newton] compute_invariant_bounded [of pool0 newton]
      s0 s1 run
    by (simp add: Let_def)
qed

subsection \<open>The balance solver, the quote and the liquidity of a swap\<close>

text \<open>
  The objective of the balance solver in closed form, the quote in terms of the balance
  solver, and the balances a swap leaves once its quote has returned.
\<close>

lemma invariant_error_eq:
  "balance_index \<le> 1 \<Longrightarrow>
   invariant_error self known_balance balance_index target_invariant balance =
     (if known_balance = 0 \<or> balance = 0 then 10 ^ 10
      else 4 * amp self * (known_balance + balance) + target_invariant -
           (4 * amp self * target_invariant +
            target_invariant ^ 3 / (4 * known_balance * balance)))"
proof -
  assume "balance_index \<le> 1"
  then consider "balance_index = 0" | "balance_index = 1"
    by linarith
  then show ?thesis
  proof cases
    case 1
    then show ?thesis
      by (simp add: invariant_error_def invariant_function_pair Let_def)
  next
    case 2
    then show ?thesis
      by (simp add: invariant_error_def invariant_function_pair Let_def add.commute
          mult.commute mult.left_commute disj_commute)
  qed
qed

lemma get_dy_given_dx_eq:
  assumes "balances self = [x, y]"
  shows "get_dy_given_dx nw self dx =
     (self, case snd (solve_for_balance nw self (x + dx) 0 (invariant self)) of
              Inl e \<Rightarrow> Inl e | Inr y_new \<Rightarrow> Inr (y - y_new))"
  using assms
  by (simp add: get_dy_given_dx_def solve_for_balance_def Let_def split: sum.splits)

lemma swap_x_for_y_balances:
  assumes "balances self = [x, y]" and "snd (get_dy_given_dx nw self dx) = Inr dy"
  shows "balances (fst (swap_x_for_y nw self dx)) = [x + dx, y - dy]"
proof -
  have "get_dy_given_dx nw self dx = (self, Inr dy)"
    using assms(2) get_dy_given_dx_eq [OF assms(1), of nw dx] by simp
  then show ?thesis
    using assms(1)
    by (simp add: swap_x_for_y_def compute_invariant_def update_spot_price_def decimal_div_def
        Let_def split: sum.splits prod.splits)
qed

text \<open>
  The run used below: on \<open>pool0\<close> the balance solver is asked for the \<open>y\<close> that goes
  with \<open>x = 11000\<close> at \<open>D = 2000\<close>.  The objective has a positive and a negative root;
  the first secant step from the estimate 1000 lands near \<open>-9000\<close>, and the iteration
  converges to the negative root in four iterations.
\<close>

lemma solve_pool0:
  "solve_for_balance newton pool0 11000 0 2000 =
     (pool0, Inr (- (272114284186517148177614077547784568816244362711799051946205 /
                     30217963229617300227804633441241859953219633689937369241)))"
  by (simp add: solve_for_balance_def newton_def newton_full_def secant_loop_pos
      invariant_function_def invariant_error_def pool0_def Let_def power_divide)

lemma quote_pool0:
  "get_dy_given_dx newton pool0 10000 =
     (pool0, Inr (302332247416134448405418710989026428769463996401736421187205 /
                  30217963229617300227804633441241859953219633689937369241))"
proof -
  have b: "balances pool0 = [1000, 1000]"
    by (simp add: pool0_def)
  have s: "solve_for_balance newton pool0 11000 0 (invariant pool0) =
     (pool0, Inr (- (272114284186517148177614077547784568816244362711799051946205 /
             30217963229617300227804633441241859953219633689937369241)))"
    using solve_pool0 by (simp add: pool0_def)
  show ?thesis
    by (simp add: get_dy_given_dx_eq [OF b] s)
qed

text \<open>
  Claim C3, as amended.  \<^verbatim>\<open>solve_for_balance\<close> returns what the root finder returns,
  unchanged and whatever its sign: there is no check of the result and no error for a
  non-positive one.  The objective returns the penalty \<open>10\<^sup>1\<^sup>0\<close> exactly where evaluating
  the residual raises, which is where a balance is zero; at a negative trial balance it
  returns the residual.
\<close>

theorem solve_for_balance_unchecked:
  assumes "balance_index \<le> 1" and "2 \<le> length (balances self)"
    and "nw (\<lambda>balance. Inr (invariant_error self known_balance balance_index
                               target_invariant balance))
            (balances self ! (1 - balance_index)) (1 / 10 ^ 10) 100 = Inr r"
  shows "solve_for_balance nw self known_balance balance_index target_invariant = (self, Inr r) \<and>
         (\<forall>balance.
            invariant_error self known_balance balance_index target_invariant balance =
              (if known_balance = 0 \<or> balance = 0 then 10 ^ 10
               else 4 * amp self * (known_balance + balance) + target_invariant -
                    (4 * amp self * target_invariant +
                     target_invariant ^ 3 / (4 * known_balance * balance))))"
  using assms invariant_error_eq [OF assms(1)]
  by (simp add: solve_for_balance_def Let_def)

theorem solve_for_balance_unchecked_witness:
  "(0::nat) \<le> 1 \<and> 2 \<le> length (balances pool0) \<and>
   solve_for_balance newton pool0 11000 0 2000 =
     (pool0, Inr (- (272114284186517148177614077547784568816244362711799051946205 /
                     30217963229617300227804633441241859953219633689937369241))) \<and>
   invariant_error pool0 11000 0 2000 (- 9000) = 200000 / 99 \<and>
   invariant_error pool0 11000 0 2000 0 = 10 ^ 10"
proof -
  have i: "(0::nat) \<le> 1"
    by simp
  have l: "2 \<le> length (balances pool0)"
    by (simp add: pool0_def)
  have r: "newton (\<lambda>balance. Inr (invariant_error pool0 11000 0 2000 balance))
            (balances pool0 ! (1 - 0)) (1 / 10 ^ 10) 100 =
          Inr (- (272114284186517148177614077547784568816244362711799051946205 /
                  30217963229617300227804633441241859953219633689937369241))"
    using solve_pool0 l by (simp add: solve_for_balance_def)
  note th = solve_for_balance_unchecked
        [where balance_index = 0 and self = pool0 and nw = newton and known_balance = 11000
           and target_invariant = 2000, OF i l r]
  have a: "solve_for_balance newton pool0 11000 0 2000 =
     (pool0, Inr (- (272114284186517148177614077547784568816244362711799051946205 /
                     30217963229617300227804633441241859953219633689937369241)))"
    using th by blast
  have e: "invariant_error pool0 11000 0 2000 balance =
      (if (11000::real) = 0 \<or> balance = 0 then 10 ^ 10
       else 4 * amp pool0 * (11000 + balance) + 2000 -
            (4 * amp pool0 * 2000 + 2000 ^ 3 / (4 * 11000 * balance)))" for balance
    using th by blast
  have b: "invariant_error pool0 11000 0 2000 (- 9000) = 200000 / 99"
    by (subst e) (simp add: pool0_def)
  have c: "invariant_error pool0 11000 0 2000 0 = 10 ^ 10"
    by (simp add: e)
  show ?thesis
    using i l a b c by blast
qed

text \<open>
  Claim C3 as the spec states it fails on \<open>pool0\<close>: the balance returned for
  \<open>x = 11000\<close> at \<open>D = 2000\<close> is negative (about \<open>-9005.05\<close>).
\<close>

theorem solve_for_balance_returns_negative:
  "snd (solve_for_balance newton pool0 11000 0 2000) =
     Inr (- (272114284186517148177614077547784568816244362711799051946205 /
             30217963229617300227804633441241859953219633689937369241)) \<and>
   - (272114284186517148177614077547784568816244362711799051946205 /
      30217963229617300227804633441241859953219633689937369241) < (0::real)"
  by (simp add: solve_pool0)

text \<open>
  Claim C4, as amended.  \<^verbatim>\<open>get_dy_given_dx\<close> computes \<open>x_new = x + dx\<close>, asks the balance
  solver for \<open>y_new\<close> at the pool's invariant and returns \<open>y - y_new\<close>, whatever its sign
  and size: nothing compares \<open>y_new\<close> with \<open>y\<close>, and the quote fails only when the
  balance solver does.
\<close>

theorem get_dy_given_dx_unchecked:
  assumes "balances self = [x, y]"
    and "snd (solve_for_balance nw self (x + dx) 0 (invariant self)) = Inr y_new"
  shows "get_dy_given_dx nw self dx = (self, Inr (y - y_new))"
  using assms get_dy_given_dx_eq [OF assms(1), of nw dx] by simp

theorem get_dy_given_dx_unchecked_witness:
  "balances pool0 = [1000, 1000] \<and>
   snd (solve_for_balance newton pool0 (1000 + 10000) 0 (invariant pool0)) =
     Inr (- (272114284186517148177614077547784568816244362711799051946205 /
             30217963229617300227804633441241859953219633689937369241)) \<and>
   get_dy_given_dx newton pool0 10000 =
     (pool0, Inr (1000 - - (272114284186517148177614077547784568816244362711799051946205 /
                            30217963229617300227804633441241859953219633689937369241)))"
proof -
  have b: "balances pool0 = [1000, 1000]"
    by (simp add: pool0_def)
  have s: "snd (solve_for_balance newton pool0 (1000 + 10000) 0 (invariant pool0)) =
     Inr (- (272114284186517148177614077547784568816244362711799051946205 /
             30217963229617300227804633441241859953219633689937369241))"
    using solve_pool0 by (simp add: pool0_def)
  show ?thesis
    using get_dy_given_dx_unchecked [OF b s] b s by simp
qed

text \<open>
  Claim C4 as the spec states it fails on \<open>pool0\<close>, whose balances are positive, at
  \<open>dx = 10000 > 0\<close>: the quote is about \<open>10005.05\<close>, which is not below the \<open>y\<close> balance
  1000.
\<close>

theorem quote_exceeds_balance:
  "balances pool0 = [1000, 1000] \<and> (0::real) < 10000 \<and>
   get_dy_given_dx newton pool0 10000 =
     (pool0, Inr (302332247416134448405418710989026428769463996401736421187205 /
                  30217963229617300227804633441241859953219633689937369241)) \<and>
   \<not> (302332247416134448405418710989026428769463996401736421187205 /
       30217963229617300227804633441241859953219633689937369241 < balances pool0 ! 1)"
  by (simp add: quote_pool0) (simp add: pool0_def)

text \<open>
  Claim C2, as amended.  \<^verbatim>\<open>swap_x_for_y\<close> has no liquidity check: once the quote has
  returned \<open>dy\<close>, whatever its size, the balances are assigned \<open>x + dx\<close> and \<open>y - dy\<close>,
  and they stay so whether the rest of the call returns or raises.
\<close>

theorem swap_x_for_y_no_liquidity_check:
  assumes "balances self = [x, y]" and "snd (get_dy_given_dx nw self dx) = Inr dy"
  shows "balances (fst (swap_x_for_y nw self dx)) = [x + dx, y - dy]"
  by (rule swap_x_for_y_balances [OF assms])

theorem swap_x_for_y_no_liquidity_check_witness:
  "balances pool0 = [1000, 1000] \<and>
   snd (get_dy_given_dx newton pool0 10000) =
     Inr (302332247416134448405418710989026428769463996401736421187205 /
          30217963229617300227804633441241859953219633689937369241) \<and>
   balances (fst (swap_x_for_y newton pool0 10000)) =
     [1000 + 10000,
      1000 - 302332247416134448405418710989026428769463996401736421187205 /
             30217963229617300227804633441241859953219633689937369241]"
proof -
  have b: "balances pool0 = [1000, 1000]"
    by (simp add: pool0_def)
  have q: "snd (get_dy_given_dx newton pool0 10000) =
     Inr (302332247416134448405418710989026428769463996401736421187205 /
          30217963229617300227804633441241859953219633689937369241)"
    by (simp add: quote_pool0)
  show ?thesis
    using swap_x_for_y_no_liquidity_check [OF b q] b q by simp
qed

text \<open>
  Claim C2 as the spec states it fails on \<open>pool0\<close> at \<open>dx = 10000\<close>: the computed
  output, about \<open>10005.05\<close>, is at least the \<open>y\<close> balance 1000, and the call leaves the
  balances changed, the second one negative.
\<close>

theorem swap_pays_out_more_than_the_balance:
  "snd (get_dy_given_dx newton pool0 10000) =
     Inr (302332247416134448405418710989026428769463996401736421187205 /
          30217963229617300227804633441241859953219633689937369241) \<and>
   balances pool0 ! 1 \<le> 302332247416134448405418710989026428769463996401736421187205 /
                          30217963229617300227804633441241859953219633689937369241 \<and>
   balances (fst (swap_x_for_y newton pool0 10000)) \<noteq> balances pool0 \<and>
   balances (fst (swap_x_for_y newton pool0 10000)) ! 1 < 0"
proof -
  have b: "balances pool0 = [1000, 1000]"
    by (simp add: pool0_def)
  have q: "snd (get_dy_given_dx newton pool0 10000) =
     Inr (302332247416134448405418710989026428769463996401736421187205 /
          30217963229617300227804633441241859953219633689937369241)"
    by (simp add: quote_pool0)
  have "balances (fst (swap_x_for_y newton pool0 10000)) =
     [1000 + 10000,
      1000 - 302332247416134448405418710989026428769463996401736421187205 /
             30217963229617300227804633441241859953219633689937369241]"
    by (rule swap_x_for_y_balances [OF b q])
  then show ?thesis
    using b q by simp
qed

subsection \<open>Swaps and the drift of the invariant\<close>

text \<open>
  What a swap leaves behind once the quote, the recomputation of the invariant and the
  update of the spot price have returned.
\<close>

lemma fst_compute_invariant: "fst (compute_invariant nw self) = self"
  by (simp add: compute_invariant_def Let_def)

lemma fst_update_spot_price_balances:
  "balances (fst (update_spot_price self)) = balances self \<and>
   invariant (fst (update_spot_price self)) = invariant self"
  by (simp add: update_spot_price_def Let_def)

lemma swap_x_for_y_commits:
  assumes b: "balances self = [x, y]"
    and q: "snd (get_dy_given_dx nw self dx) = Inr dy"
    and c: "snd (compute_invariant nw (self\<lparr>balances := [x + dx, y - dy]\<rparr>)) = Inr new_invariant"
    and u: "snd (update_spot_price
                  (self\<lparr>balances := [x + dx, y - dy], invariant := new_invariant\<rparr>)) = Inr ()"
    and nz: "dx \<noteq> 0"
  shows "snd (swap_x_for_y nw self dx) = Inr dy \<and>
         balances (fst (swap_x_for_y nw self dx)) = [x + dx, y - dy] \<and>
         invariant (fst (swap_x_for_y nw self dx)) = new_invariant"
proof -
  let ?s = "self\<lparr>balances := [x + dx, y - dy]\<rparr>"
  let ?t = "self\<lparr>balances := [x + dx, y - dy], invariant := new_invariant\<rparr>"
  have q': "get_dy_given_dx nw self dx = (self, Inr dy)"
    using q get_dy_given_dx_eq [OF b, of nw dx] by simp
  have c': "compute_invariant nw ?s = (?s, Inr new_invariant)"
    using c fst_compute_invariant [of nw ?s] by (metis prod.collapse)
  obtain t' where u': "update_spot_price ?t = (t', Inr ())"
    using u by (metis prod.collapse)
  have t': "balances t' = [x + dx, y - dy] \<and> invariant t' = new_invariant"
    using fst_update_spot_price_balances [of ?t] u' by simp
  show ?thesis
    using b nz t'
    by (simp add: swap_x_for_y_def q' c' u' decimal_div_def Let_def)
qed

lemma get_dx_given_dy_eq:
  assumes "balances self = [x, y]"
  shows "get_dx_given_dy nw self dy =
     (self, case snd (solve_for_balance nw self (y + dy) 1 (invariant self)) of
              Inl e \<Rightarrow> Inl e | Inr x_new \<Rightarrow> Inr (x - x_new))"
  using assms
  by (simp add: get_dx_given_dy_def solve_for_balance_def Let_def split: sum.splits)

lemma swap_y_for_x_commits:
  assumes b: "balances self = [x, y]"
    and q: "snd (get_dx_given_dy nw self dy) = Inr dx"
    and c: "snd (compute_invariant nw (self\<lparr>balances := [x - dx, y + dy]\<rparr>)) = Inr new_invariant"
    and u: "snd (update_spot_price
                  (self\<lparr>balances := [x - dx, y + dy], invariant := new_invariant\<rparr>)) = Inr ()"
    and nz: "dx \<noteq> 0"
  shows "snd (swap_y_for_x nw self dy) = Inr dx \<and>
         balances (fst (swap_y_for_x nw self dy)) = [x - dx, y + dy] \<and>
         invariant (fst (swap_y_for_x nw self dy)) = new_invariant"
proof -
  let ?s = "self\<lparr>balances := [x - dx, y + dy]\<rparr>"
  let ?t = "self\<lparr>balances := [x - dx, y + dy], invariant := new_invariant\<rparr>"
  have q': "get_dx_given_dy nw self dy = (self, Inr dx)"
    using q get_dx_given_dy_eq [OF b, of nw dy] by simp
  have c': "compute_invariant nw ?s = (?s, Inr new_invariant)"
    using c fst_compute_invariant [of nw ?s] by (metis prod.collapse)
  obtain t' where u': "update_spot_price ?t = (t', Inr ())"
    using u by (metis prod.collapse)
  have t': "balances t' = [x - dx, y + dy] \<and> invariant t' = new_invariant"
    using fst_update_spot_price_balances [of ?t] u' by simp
  show ?thesis
    using b nz t'
    by (simp add: swap_y_for_x_def q' c' u' decimal_div_def Let_def)
qed

text \<open>
  Claim C1, as amended.  After the balances are assigned the invariant is recomputed,
  and its distance to the old one is computed for display only.  Whenever the quote,
  the recomputation and the update of the spot price return, and the closing division
  of the two amounts is defined, either swap returns the quoted amount and commits the
  new balances and the new invariant, whatever the distance between the new invariant
  and the old one: no tolerance is consulted, there is no \<^verbatim>\<open>InvariantViolation\<close>, and
  nothing is rolled back.
\<close>

theorem swaps_commit_whatever_the_drift:
  "(balances self = [x, y] \<and>
    snd (get_dy_given_dx nw self dx) = Inr dy \<and>
    snd (compute_invariant nw (self\<lparr>balances := [x + dx, y - dy]\<rparr>)) = Inr new_invariant \<and>
    snd (update_spot_price
          (self\<lparr>balances := [x + dx, y - dy], invariant := new_invariant\<rparr>)) = Inr () \<and>
    dx \<noteq> 0 \<longrightarrow>
      snd (swap_x_for_y nw self dx) = Inr dy \<and>
      balances (fst (swap_x_for_y nw self dx)) = [x + dx, y - dy] \<and>
      invariant (fst (swap_x_for_y nw self dx)) = new_invariant) \<and>
   (balances self = [x, y] \<and>
    snd (get_dx_given_dy nw self dy_in) = Inr dx_out \<and>
    snd (compute_invariant nw (self\<lparr>balances := [x - dx_out, y + dy_in]\<rparr>)) = Inr D \<and>
    snd (update_spot_price
          (self\<lparr>balances := [x - dx_out, y + dy_in], invariant := D\<rparr>)) = Inr () \<and>
    dx_out \<noteq> 0 \<longrightarrow>
      snd (swap_y_for_x nw self dy_in) = Inr dx_out \<and>
      balances (fst (swap_y_for_x nw self dy_in)) = [x - dx_out, y + dy_in] \<and>
      invariant (fst (swap_y_for_x nw self dy_in)) = D)"
  using swap_x_for_y_commits [of self x y nw dx dy new_invariant]
    swap_y_for_x_commits [of self x y nw dy_in dx_out D]
  by blast

theorem swaps_commit_whatever_the_drift_witness:
  "snd (swap_x_for_y newton pool_neg 1) = Inr 1 \<and>
   balances (fst (swap_x_for_y newton pool_neg 1)) = [1 + 1, - 1 - 1] \<and>
   invariant (fst (swap_x_for_y newton pool_neg 1)) = 0 \<and>
   snd (swap_y_for_x newton pool_neg 2) = Inr 2 \<and>
   balances (fst (swap_y_for_x newton pool_neg 2)) = [1 - 2, - 1 + 2] \<and>
   invariant (fst (swap_y_for_x newton pool_neg 2)) = 0"
proof -
  have b: "balances pool_neg = [1, - 1]"
    by (simp add: pool_neg_def)
  have q1: "snd (get_dy_given_dx newton pool_neg 1) = Inr 1"
    by (simp add: get_dy_given_dx_def solve_for_balance_def newton_def newton_full_def
        secant_loop_pos invariant_function_def invariant_error_def pool_neg_def Let_def)
  have q2: "snd (get_dx_given_dy newton pool_neg 2) = Inr 2"
    by (simp add: get_dx_given_dy_def solve_for_balance_def newton_def newton_full_def
        secant_loop_pos invariant_function_def invariant_error_def pool_neg_def Let_def)
  have c1: "snd (compute_invariant newton (pool_neg\<lparr>balances := [1 + 1, - 1 - 1]\<rparr>)) = Inr 0"
    by (simp add: compute_invariant_def)
  have c2: "snd (compute_invariant newton (pool_neg\<lparr>balances := [1 - 2, - 1 + 2]\<rparr>)) = Inr 0"
    by (simp add: compute_invariant_def)
  have u1: "snd (update_spot_price
                  (pool_neg\<lparr>balances := [1 + 1, - 1 - 1], invariant := 0\<rparr>)) = Inr ()"
    by (simp add: update_spot_price_def df_dx_def pool_neg_def Let_def)
  have u2: "snd (update_spot_price
                  (pool_neg\<lparr>balances := [1 - 2, - 1 + 2], invariant := 0\<rparr>)) = Inr ()"
    by (simp add: update_spot_price_def df_dx_def pool_neg_def Let_def)
  show ?thesis
    using swaps_commit_whatever_the_drift
            [of pool_neg 1 "- 1" newton 1 1 0 2 2 0] b q1 q2 c1 c2 u1 u2
    by simp
qed

text \<open>
  A run of the root finder that converges at its second iteration, a bound on a secant
  step, and with them the swap of \<open>10\<^sup>-\<^sup>1\<^sup>1\<close> on \<open>pool_tiny\<close>: the quote is computed
  exactly, the recomputed invariant is bounded.  At this scale the offset \<open>10\<^sup>-\<^sup>4\<close> of the
  second starting point and the tolerance \<open>10\<^sup>-\<^sup>1\<^sup>0\<close> are large against the balances, and
  both runs stop at their second iteration away from a root.
\<close>

lemma newton_two_iterations:
  assumes tol: "0 < tol"
    and x0: "x0 * (1 + 1 / 10 ^ 4) \<ge> 0"
    and p1: "p1 = x0 * (1 + 1 / 10 ^ 4) + 1 / 10 ^ 4"
    and q0: "func x0 = Inr q0"
    and q1: "func p1 = Inr q1"
    and a: "\<bar>q0\<bar> < \<bar>q1\<bar>"
    and p: "p = (- q0 / q1 * p1 + x0) / (1 - q0 / q1)"
    and nc: "tol < \<bar>p - p1\<bar>"
    and Q: "func p = Inr Q"
    and b: "\<bar>Q\<bar> < \<bar>q1\<bar>"
    and c: "\<bar>(- Q / q1 * p1 + p) / (1 - Q / q1) - p\<bar> \<le> tol"
  shows "newton func x0 tol 100 = Inr ((- Q / q1 * p1 + p) / (1 - Q / q1))"
proof -
  have ne1: "q1 \<noteq> q0" and ns: "\<not> \<bar>q1\<bar> < \<bar>q0\<bar>"
    using a by auto
  have ne2: "Q \<noteq> q1" and nb: "\<not> \<bar>q1\<bar> < \<bar>Q\<bar>"
    using b by auto
  have nc': "\<not> \<bar>(- q0 / q1 * p1 + x0) / (1 - q0 / q1) - p1\<bar> \<le> tol"
    using nc p by simp
  have s2: "secant_loop func tol 99 1 3 p1 q1 p Q =
      \<lparr>outcome = Inr ((- Q / q1 * p1 + p) / (1 - Q / q1)), iterations = 2, funcalls = 3\<rparr>"
    using ne2 nb c by (subst secant_loop_pos) (simp_all add: Let_def)
  have s1: "secant_loop func tol 100 0 2 x0 q0 p1 q1 = secant_loop func tol 99 1 3 p1 q1 p Q"
    using ne1 a nc' Q p by (subst secant_loop_pos) (simp_all add: Let_def)
  have ntol: "\<not> tol \<le> 0"
    using tol by simp
  have n100: "\<not> (100::nat) < 1"
    by simp
  have "newton_full func x0 tol 100 = secant_loop func tol 100 0 2 x0 q0 p1 q1"
    unfolding newton_full_def Let_def
    by (simp only: ntol n100 if_False x0 if_True p1 [symmetric] q0 q1 sum.case ns)
  then have "newton_full func x0 tol 100 =
      \<lparr>outcome = Inr ((- Q / q1 * p1 + p) / (1 - Q / q1)), iterations = 2, funcalls = 3\<rparr>"
    by (simp only: s1 s2)
  then show ?thesis
    by (simp add: newton_def)
qed

lemma secant_step_bounds:
  fixes a b q0 q1 :: real
  assumes q0: "0 < q0" and q1: "0 < q1" and half: "q0 / q1 \<le> 1 / 2" and ab: "a < b"
  shows "(- q0 / q1 * b + a) / (1 - q0 / q1) < a"
    and "a - 2 * (q0 / q1) * (b - a) \<le> (- q0 / q1 * b + a) / (1 - q0 / q1)"
proof -
  define r where "r = q0 / q1"
  have r: "0 < r" "r \<le> 1 / 2"
    using q0 q1 half by (simp_all add: r_def)
  have pos: "0 < 1 - r"
    using r by simp
  have e: "(- q0 / q1 * b + a) / (1 - q0 / q1) = (a - r * b) / (1 - r)"
    by (simp add: r_def)
  have "a - r * b < a * (1 - r)"
  proof -
    have "r * a < r * b"
      using r(1) ab by simp
    then show ?thesis
      by (simp add: algebra_simps)
  qed
  then have "(a - r * b) / (1 - r) < a"
    using pos by (simp add: pos_divide_less_eq)
  then show "(- q0 / q1 * b + a) / (1 - q0 / q1) < a"
    by (simp only: e)
  have "0 \<le> r * (b - a) * (1 - 2 * r)"
    using r ab by simp
  then have "(a - 2 * r * (b - a)) * (1 - r) \<le> a - r * b"
    by (simp add: algebra_simps)
  then have "a - 2 * r * (b - a) \<le> (a - r * b) / (1 - r)"
    using pos by (simp add: pos_le_divide_eq)
  then show "a - 2 * (q0 / q1) * (b - a) \<le> (- q0 / q1 * b + a) / (1 - q0 / q1)"
    by (simp only: e) (simp add: r_def)
qed

lemma tiny_invariant:
  "\<exists>D. compute_invariant newton
          (pool_tiny\<lparr>balances :=
             [1 / 10 ^ 11 + 1 / 10 ^ 11,
              1 / 10 ^ 11 - 4010000401080200004010401 / 200000000003997995000020000000000000]\<rparr>)
        = (pool_tiny\<lparr>balances :=
             [1 / 10 ^ 11 + 1 / 10 ^ 11,
              1 / 10 ^ 11 - 4010000401080200004010401 / 200000000003997995000020000000000000]\<rparr>,
           Inr D) \<and> 0 < D \<and> D < 1 / 10 ^ 11"
proof -
  define x2 :: real where "x2 = 1 / 10 ^ 11 + 1 / 10 ^ 11"
  define y2 :: real where
    "y2 = 1 / 10 ^ 11 - 4010000401080200004010401 / 200000000003997995000020000000000000"
  define s3 where "s3 = pool_tiny\<lparr>balances := [x2, y2]\<rparr>"
  define s where "s = x2 + y2"
  define \<kappa> where "\<kappa> = - (1 / (4 * x2 * y2))"
  define F where "F d = 4 * 100 * (x2 + y2) + d - (4 * 100 * d + d ^ 3 / (4 * x2 * y2))" for d
  define P1 where "P1 = s * (1 + 1 / 10 ^ 4) + 1 / 10 ^ 4"
  define Q0 where "Q0 = F s"
  define Q1 where "Q1 = F P1"
  define P where "P = (- Q0 / Q1 * P1 + s) / (1 - Q0 / Q1)"
  define Q where "Q = F P"
  define D where "D = (- Q / Q1 * P1 + P) / (1 - Q / Q1)"
  have x2: "0 < x2" and y2: "y2 < 0"
    by (simp_all add: x2_def y2_def)
  have obj: "invariant_function s3 d (balances s3) = Inr (F d)" for d
    using x2 y2 by (simp add: s3_def invariant_function_pair F_def pool_tiny_def)
  have sum: "sum_list (balances s3) = s"
    by (simp add: s3_def s_def)
  have F_alg: "F d = 400 * s - 399 * d + \<kappa> * d ^ 3" for d
    by (simp add: F_def s_def \<kappa>_def algebra_simps)
  have s_lo: "99 / 10 ^ 13 < s" and s_hi: "s < 1 / 10 ^ 11"
    by (simp_all add: s_def x2_def y2_def)
  have k_lo: "12 * 10 ^ 20 < \<kappa>" and k_hi: "\<kappa> < 125 * 10 ^ 19"
    by (simp_all add: \<kappa>_def x2_def y2_def)
  have s_pos: "0 < s" and k_pos: "0 < \<kappa>"
    using s_lo k_lo by simp_all
  have P1_lo: "1 / 10 ^ 4 < P1" and P1_hi: "P1 < 2 / 10 ^ 4"
    using s_lo s_hi by (simp_all add: P1_def)
  have cube_hi: "\<kappa> * a ^ 3 < 125 / 10 ^ 14" if "0 \<le> a" "a < 1 / 10 ^ 11" for a
  proof -
    have "a ^ 3 < (1 / 10 ^ 11) ^ 3"
      using that by (intro power_strict_mono) simp_all
    then have "\<kappa> * a ^ 3 < 125 * 10 ^ 19 * (1 / 10 ^ 11) ^ 3"
      using k_hi that(1) by (intro mult_strict_mono) simp_all
    then show ?thesis
      by (simp add: power_divide)
  qed
  have cube_pos: "0 < \<kappa> * a ^ 3" if "0 < a" for a
    using k_pos that by simp
  have Q0_pos: "0 < Q0" and Q0_hi: "Q0 < 2 / 10 ^ 11"
    using s_pos s_hi cube_pos [OF s_pos] cube_hi [of s] by (simp_all add: Q0_def F_alg)
  have Q1_lo: "10 ^ 9 < Q1"
  proof -
    have "(1 / 10 ^ 4) ^ 3 < P1 ^ 3"
      using P1_lo by (intro power_strict_mono) simp_all
    then have "12 * 10 ^ 20 * (1 / 10 ^ 4) ^ 3 < \<kappa> * P1 ^ 3"
      using k_lo k_pos by (intro mult_strict_mono) simp_all
    then show ?thesis
      using s_pos P1_hi by (simp add: Q1_def F_alg power_divide)
  qed
  have Q1_pos: "0 < Q1"
    using Q1_lo by simp
  have r0_hi: "Q0 / Q1 < 2 / 10 ^ 20"
  proof -
    have "Q0 / Q1 < (2 / 10 ^ 11) / 10 ^ 9"
      using Q0_pos Q0_hi Q1_lo by (intro frac_less2) simp_all
    then show ?thesis
      by simp
  qed
  have r0_pos: "0 < Q0 / Q1"
    using Q0_pos Q1_pos by simp
  have sP1: "s < P1"
    using s_hi P1_lo by simp
  have r0_half: "Q0 / Q1 \<le> 1 / 2"
    by (rule order.trans [OF less_imp_le [OF r0_hi]]) simp
  have P_hi: "P < s" and P_lo': "s - 2 * (Q0 / Q1) * (P1 - s) \<le> P"
    unfolding P_def
    by (rule secant_step_bounds [OF Q0_pos Q1_pos r0_half sP1])+
  have P_lo: "s - 1 / 10 ^ 23 < P"
  proof -
    have "(Q0 / Q1) * (P1 - s) < (2 / 10 ^ 20) * (2 / 10 ^ 4)"
      using r0_hi r0_pos P1_hi s_pos sP1 by (intro mult_strict_mono) simp_all
    then show ?thesis
      using P_lo' by simp
  qed
  have P_pos: "0 < P"
    using P_lo s_lo by simp
  have Q_pos: "0 < Q" and Q_hi: "Q < 2 / 10 ^ 11"
    using P_hi P_lo s_hi s_pos cube_pos [OF P_pos] cube_hi [of P] P_pos
    by (simp_all add: Q_def F_alg)
  have r_hi: "Q / Q1 < 2 / 10 ^ 20"
  proof -
    have "Q / Q1 < (2 / 10 ^ 11) / 10 ^ 9"
      using Q_pos Q_hi Q1_lo by (intro frac_less2) simp_all
    then show ?thesis
      by simp
  qed
  have r_pos: "0 < Q / Q1"
    using Q_pos Q1_pos by simp
  have PP1: "P < P1"
    using P_hi sP1 by simp
  have r_half: "Q / Q1 \<le> 1 / 2"
    by (rule order.trans [OF less_imp_le [OF r_hi]]) simp
  have D_hi: "D < P" and D_lo': "P - 2 * (Q / Q1) * (P1 - P) \<le> D"
    unfolding D_def
    by (rule secant_step_bounds [OF Q_pos Q1_pos r_half PP1])+
  have D_lo: "P - 1 / 10 ^ 23 < D"
  proof -
    have "(Q / Q1) * (P1 - P) < (2 / 10 ^ 20) * (2 / 10 ^ 4)"
      using r_hi r_pos P1_hi P_pos PP1 by (intro mult_strict_mono) simp_all
    then show ?thesis
      using D_lo' by simp
  qed
  have conv: "\<bar>D - P\<bar> \<le> 1 / 10 ^ 10"
    using D_hi D_lo by simp
  have run: "newton (\<lambda>d. invariant_function s3 d (balances s3)) s (1 / 10 ^ 10) 100 = Inr D"
    unfolding D_def
  proof (rule newton_two_iterations [where ?q0.0 = Q0 and ?p1.0 = P1 and p = P])
    show "(0::real) < 1 / 10 ^ 10" by simp
    show "0 \<le> s * (1 + 1 / 10 ^ 4)" using s_pos by simp
    show "P1 = s * (1 + 1 / 10 ^ 4) + 1 / 10 ^ 4" by (simp add: P1_def)
    show "invariant_function s3 s (balances s3) = Inr Q0" by (simp add: obj Q0_def)
    show "invariant_function s3 P1 (balances s3) = Inr Q1" by (simp add: obj Q1_def)
    show "\<bar>Q0\<bar> < \<bar>Q1\<bar>" using Q0_pos Q0_hi Q1_lo by simp
    show "P = (- Q0 / Q1 * P1 + s) / (1 - Q0 / Q1)" by (simp add: P_def)
    show "1 / 10 ^ 10 < \<bar>P - P1\<bar>" using P_hi s_hi P1_lo by simp
    show "invariant_function s3 P (balances s3) = Inr Q" by (simp add: obj Q_def)
    show "\<bar>Q\<bar> < \<bar>Q1\<bar>" using Q_pos Q_hi Q1_lo by simp
    show "\<bar>(- Q / Q1 * P1 + P) / (1 - Q / Q1) - P\<bar> \<le> 1 / 10 ^ 10"
      using conv unfolding D_def .
  qed
  have "s \<noteq> 0"
    using s_pos by simp
  then have "compute_invariant newton s3 = (s3, Inr D)"
    unfolding compute_invariant_def Let_def sum run by simp
  moreover have "0 < D" and "D < 1 / 10 ^ 11"
    using D_lo D_hi P_lo P_hi s_lo s_hi by simp_all
  ultimately show ?thesis
    unfolding s3_def x2_def y2_def by blast
qed

lemma tiny_quote:
  "get_dy_given_dx newton pool_tiny (1 / 10 ^ 11) =
     (pool_tiny, Inr (4010000401080200004010401 / 200000000003997995000020000000000000))"
  by (simp add: get_dy_given_dx_def solve_for_balance_def newton_def newton_full_def
      secant_loop_pos invariant_function_def invariant_error_def pool_tiny_def Let_def
      power_divide)

lemma df_dx_pos:
  assumes "0 < A" and "0 < d" and "x \<noteq> 0" and "y < 0"
  shows "0 < df_dx A d x y"
proof -
  have "0 < d ^ 3"
    using assms(2) by simp
  moreover have "4 * x ^ 2 * y < 0"
    using assms(3,4) by (simp add: mult_pos_neg)
  ultimately have "d ^ 3 / (4 * x ^ 2 * y) < 0"
    by (rule divide_pos_neg)
  then show ?thesis
    using assms(1) by (simp add: df_dx_def)
qed

lemma update_spot_price_returns:
  assumes "balances self = [x, y]" and "x \<noteq> 0" and "y \<noteq> 0"
    and "df_dx (amp self) (invariant self) x y \<noteq> 0"
  shows "snd (update_spot_price self) = Inr ()"
  using assms by (simp add: update_spot_price_def Let_def)

text \<open>
  Claim C1 as the spec states it fails on \<open>pool_tiny\<close>: \<^verbatim>\<open>swap_x_for_y(1e-11)\<close> returns
  (about \<open>2.005 \<sqdot> 10\<^sup>-\<^sup>1\<^sup>1\<close>) and leaves the balances changed, although the recomputed
  invariant is below \<open>10\<^sup>-\<^sup>1\<^sup>1\<close> where the old one is \<open>2 \<sqdot> 10\<^sup>-\<^sup>1\<^sup>1\<close>: the drift is more than
  half of the old invariant, far beyond a relative tolerance of \<open>10\<^sup>-\<^sup>6\<close>, and more than
  \<open>10\<^sup>-\<^sup>1\<^sup>1\<close> in absolute terms.
\<close>

theorem swap_commits_a_drifted_invariant:
  "snd (swap_x_for_y newton pool_tiny (1 / 10 ^ 11)) =
     Inr (4010000401080200004010401 / 200000000003997995000020000000000000) \<and>
   balances (fst (swap_x_for_y newton pool_tiny (1 / 10 ^ 11))) \<noteq> balances pool_tiny \<and>
   invariant pool_tiny = 2 / 10 ^ 11 \<and>
   invariant (fst (swap_x_for_y newton pool_tiny (1 / 10 ^ 11))) < 1 / 10 ^ 11 \<and>
   \<bar>invariant (fst (swap_x_for_y newton pool_tiny (1 / 10 ^ 11))) - invariant pool_tiny\<bar>
     > 1 / 10 ^ 6 * \<bar>invariant pool_tiny\<bar> \<and>
   \<bar>invariant (fst (swap_x_for_y newton pool_tiny (1 / 10 ^ 11))) - invariant pool_tiny\<bar>
     > 1 / 10 ^ 11"
proof -
  let ?dy = "4010000401080200004010401 / 200000000003997995000020000000000000 :: real"
  obtain D where c: "compute_invariant newton
          (pool_tiny\<lparr>balances := [1 / 10 ^ 11 + 1 / 10 ^ 11, 1 / 10 ^ 11 - ?dy]\<rparr>)
        = (pool_tiny\<lparr>balances := [1 / 10 ^ 11 + 1 / 10 ^ 11, 1 / 10 ^ 11 - ?dy]\<rparr>, Inr D)"
    and D: "0 < D" "D < 1 / 10 ^ 11"
    using tiny_invariant by blast
  have b: "balances pool_tiny = [1 / 10 ^ 11, 1 / 10 ^ 11]"
    by (simp add: pool_tiny_def)
  have q: "snd (get_dy_given_dx newton pool_tiny (1 / 10 ^ 11)) = Inr ?dy"
    by (simp only: tiny_quote snd_conv)
  have c': "snd (compute_invariant newton
          (pool_tiny\<lparr>balances := [1 / 10 ^ 11 + 1 / 10 ^ 11, 1 / 10 ^ 11 - ?dy]\<rparr>)) = Inr D"
    by (simp only: c snd_conv)
  have u: "snd (update_spot_price
      (pool_tiny\<lparr>balances := [1 / 10 ^ 11 + 1 / 10 ^ 11, 1 / 10 ^ 11 - ?dy],
                  invariant := D\<rparr>)) = Inr ()"
  proof (rule update_spot_price_returns)
    show "balances (pool_tiny\<lparr>balances := [1 / 10 ^ 11 + 1 / 10 ^ 11, 1 / 10 ^ 11 - ?dy],
                  invariant := D\<rparr>) = [1 / 10 ^ 11 + 1 / 10 ^ 11, 1 / 10 ^ 11 - ?dy]"
      by simp
    show "(1 / 10 ^ 11 + 1 / 10 ^ 11 :: real) \<noteq> 0"
      by simp
    show "1 / 10 ^ 11 - ?dy \<noteq> 0"
      by simp
    have "0 < df_dx 100 D (1 / 10 ^ 11 + 1 / 10 ^ 11) (1 / 10 ^ 11 - ?dy)"
      by (rule df_dx_pos) (use D in simp_all)
    then show "df_dx (amp (pool_tiny\<lparr>balances := [1 / 10 ^ 11 + 1 / 10 ^ 11, 1 / 10 ^ 11 - ?dy],
                  invariant := D\<rparr>))
               (invariant (pool_tiny\<lparr>balances := [1 / 10 ^ 11 + 1 / 10 ^ 11, 1 / 10 ^ 11 - ?dy],
                  invariant := D\<rparr>))
               (1 / 10 ^ 11 + 1 / 10 ^ 11) (1 / 10 ^ 11 - ?dy) \<noteq> 0"
      by (simp add: pool_tiny_def)
  qed
  have nz: "(1 / 10 ^ 11 :: real) \<noteq> 0"
    by simp
  note r = swap_x_for_y_commits [OF b q c' u nz]
  have i: "invariant (fst (swap_x_for_y newton pool_tiny (1 / 10 ^ 11))) = D"
    using r by blast
  have o: "invariant pool_tiny = 2 / 10 ^ 11"
    by (simp add: pool_tiny_def)
  have m: "balances (fst (swap_x_for_y newton pool_tiny (1 / 10 ^ 11))) \<noteq> balances pool_tiny"
    using r b by simp
  show ?thesis
    using r m D by (simp add: i o)
qed

subsection \<open>The quote at an exact root\<close>

text \<open>
  What the curve itself guarantees.  For positive balances, a positive invariant and a
  positive amplification the residual grows with either balance.  So when the pool lies
  on the curve and the balance solver returns a positive balance that lies on the curve
  for \<open>x + dx\<close> with \<open>dx > 0\<close>, the quote \<open>y - y_new\<close> is positive and below \<open>y\<close>.  The
  quotes outside this range come from results of the root finder that are not the
  positive root.
\<close>

theorem exact_root_quote_in_range:
  assumes A: "0 < amp self" and d: "0 < d" and x: "0 < x" and y: "0 < y" and dx: "0 < dx"
    and yn: "0 < y_new"
    and old: "invariant_function self d [x, y] = Inr 0"
    and new: "invariant_function self d [x + dx, y_new] = Inr 0"
  shows "0 < y - y_new \<and> y - y_new < y"
proof -
  have e1: "4 * amp self * (x + y) + d - (4 * amp self * d + d ^ 3 / (4 * x * y)) = 0"
    using old x y by (simp add: invariant_function_pair)
  have e2: "4 * amp self * (x + dx + y_new) + d -
            (4 * amp self * d + d ^ 3 / (4 * (x + dx) * y_new)) = 0"
    using new x dx yn by (simp add: invariant_function_pair)
  have "y_new < y"
  proof (rule ccontr)
    assume "\<not> y_new < y"
    then have le: "y \<le> y_new"
      by simp
    have "x * y < (x + dx) * y_new"
      using x y dx le by (intro mult_less_le_imp_less) simp_all
    then have "4 * (x * y) < 4 * ((x + dx) * y_new)"
      by (rule mult_strict_left_mono) simp
    then have "4 * x * y < 4 * (x + dx) * y_new"
      by (simp only: mult.assoc)
    moreover have "0 < 4 * x * y"
      using x y by simp
    ultimately have "d ^ 3 / (4 * (x + dx) * y_new) < d ^ 3 / (4 * x * y)"
      using d by (intro divide_strict_left_mono) simp_all
    moreover have "4 * amp self * (x + y) < 4 * amp self * (x + dx + y_new)"
      using A dx le by simp
    ultimately show False
      using e1 e2 by linarith
  qed
  then show ?thesis
    using yn by simp
qed

theorem exact_root_quote_in_range_witness:
  "invariant_function (pool0\<lparr>amp := 3 / 4\<rparr>) 2 [1, 1] = Inr 0 \<and>
   invariant_function (pool0\<lparr>amp := 3 / 4\<rparr>) 2 [1 + 1, 1 / 3] = Inr 0 \<and>
   (0::real) < 1 - 1 / 3 \<and> (1::real) - 1 / 3 < 1"
proof -
  have o: "invariant_function (pool0\<lparr>amp := 3 / 4\<rparr>) 2 [1, 1] = Inr 0"
    by (simp add: invariant_function_pair)
  have n: "invariant_function (pool0\<lparr>amp := 3 / 4\<rparr>) 2 [1 + 1, 1 / 3] = Inr 0"
    by (simp add: invariant_function_pair)
  have "0 < amp (pool0\<lparr>amp := 3 / 4\<rparr>)"
    by simp
  from exact_root_quote_in_range [OF this _ _ _ _ _ o n] o n show ?thesis
    by simp
qed

end
